theory Spec2Isabelle
  imports Complex_Main "HOL-Library.Code_Target_Nat"
begin

section \<open>JavaScript values\<close>

text \<open>
  The listener stores and serves values it gets from outside: snapshots resolved by the
  \<^verbatim>\<open>systeminformation\<close> calls and the reasons their promises reject with. They are
  JavaScript values, and the code tests them (\<^verbatim>\<open>if (this.lastCpuError)\<close>,
  \<^verbatim>\<open>typeof stat === 'string'\<close>, \<^verbatim>\<open>apiPath || DEFAULT_PATH_PREFIX\<close>), so the model
  keeps their shape. Numbers are the finite ones (\<open>NaN\<close> and the infinities are left
  out); an object is the list of its own properties in insertion order; functions are not
  values of the model.
\<close>

datatype jsval =
    JUndefined
  | JNull
  | JBool bool
  | JNum real
  | JStr string
  | JArr "jsval list"
  | JObj "(string \<times> jsval) list"

type_synonym obj = "(string \<times> jsval) list"

text \<open>\<^verbatim>\<open>ToBoolean\<close>: what \<^verbatim>\<open>if (v)\<close>, \<^verbatim>\<open>!v\<close> and \<^verbatim>\<open>v || d\<close> test.\<close>

fun truthy :: "jsval \<Rightarrow> bool" where
  "truthy JUndefined = False"
| "truthy JNull = False"
| "truthy (JBool b) = b"
| "truthy (JNum r) = (r \<noteq> 0)"
| "truthy (JStr s) = (s \<noteq> [])"
| "truthy (JArr _) = True"
| "truthy (JObj _) = True"

text \<open>\<^verbatim>\<open>o[k]\<close> and \<^verbatim>\<open>o[k] = v\<close> on an object: a missing property reads as
  \<^verbatim>\<open>undefined\<close>; writing keeps an existing property's place and appends a new one.\<close>

fun getProp :: "obj \<Rightarrow> string \<Rightarrow> jsval" where
  "getProp [] k = JUndefined"
| "getProp ((k', v) # ps) k = (if k' = k then v else getProp ps k)"

fun setProp :: "obj \<Rightarrow> string \<Rightarrow> jsval \<Rightarrow> obj" where
  "setProp [] k v = [(k, v)]"
| "setProp ((k', v') # ps) k v = (if k' = k then (k, v) # ps else (k', v') # setProp ps k v)"

text \<open>The string methods the code calls. \<^verbatim>\<open>substring\<close> clamps both indices to the
  string and swaps them when they are out of order.\<close>

definition startsWith :: "string \<Rightarrow> string \<Rightarrow> bool" where
  "startsWith s t = (take (length t) s = t)"

definition endsWith :: "string \<Rightarrow> string \<Rightarrow> bool" where
  "endsWith s t = (length t \<le> length s \<and> drop (length s - length t) s = t)"

definition substring :: "string \<Rightarrow> nat \<Rightarrow> nat \<Rightarrow> string" where
  "substring s a b =
     (let a' = min a (length s); b' = min b (length s)
      in take (max a' b' - min a' b') (drop (min a' b') s))"

text \<open>
  What the platform does and the repository does not define: \<^verbatim>\<open>JSON.stringify\<close> and
  the \<^verbatim>\<open>ToString\<close> conversion of a template literal's \<^verbatim>\<open>${...}\<close>. Both are
  parameters of the model. Where \<^verbatim>\<open>JSON.stringify\<close> yields \<^verbatim>\<open>undefined\<close>,
  \<^verbatim>\<open>res.end\<close> gets no data: the parameter then gives the empty string.
\<close>

record platform =
  JSON_stringify :: "jsval \<Rightarrow> string"
  ToString :: "jsval \<Rightarrow> string"

section \<open>The listener\<close>

definition DEFAULT_PATH_PREFIX :: string where
  "DEFAULT_PATH_PREFIX = ''/metrics''"

definition DEFAULT_INTERVAL :: real where
  "DEFAULT_INTERVAL = 1000"

text \<open>
  The three counters of an instance are JavaScript numbers that start at 0 and change
  only by \<^verbatim>\<open>++\<close>. A double holds every integer up to \<open>2^53\<close> exactly, and
  \<open>2^53 + 1\<close> rounds back to \<open>2^53\<close>: the counter goes up by one while it is below
  \<open>2^53\<close> and stays once it is there. The counters are naturals in that range
  (\<open>counters_in_range\<close> below), with \<^verbatim>\<open>++\<close> as \<open>jsIncrement\<close>.
\<close>

definition MAX_COUNT :: nat where
  "MAX_COUNT = 2 ^ 53"

definition jsIncrement :: "nat \<Rightarrow> nat" where
  "jsIncrement n = (if n < MAX_COUNT then n + 1 else n)"

text \<open>The fields of a \<^verbatim>\<open>MetricsListener\<close> instance.\<close>

record listener =
  apiPath :: string
  interval :: real
  requestCount :: nat
  lastCpuData :: obj
  lastNetworkData :: obj
  lastCpuError :: jsval
  lastNetworkError :: jsval
  cpuIntervals :: nat
  networkIntervals :: nat

subsection \<open>Construction\<close>

text \<open>The \<^verbatim>\<open>while (apiPath.endsWith('/'))\<close> loop of the constructor.\<close>

function stripLoop :: "string \<Rightarrow> string" where
  "stripLoop path =
     (if endsWith path ''/''
      then stripLoop (substring path 0 (length path - 1))
      else path)"
  by pat_completeness auto
termination
  by (relation "measure length") (auto simp: endsWith_def substring_def)

declare stripLoop.simps [simp del]

datatype js_error = TypeError

text \<open>Lines 13 to 19 of the constructor. A truthy argument that is not a string has no
  \<^verbatim>\<open>endsWith\<close> method: the call throws.\<close>

definition constructorApiPath :: "jsval \<Rightarrow> js_error + string" where
  "constructorApiPath arg =
     (case (if truthy arg then arg else JStr DEFAULT_PATH_PREFIX) of
        JStr s \<Rightarrow>
          (let s' = stripLoop s
           in Inr (if s' = [] then DEFAULT_PATH_PREFIX else s'))
      | _ \<Rightarrow> Inl TypeError)"

definition isInteger :: "jsval \<Rightarrow> bool" where
  "isInteger v = (case v of JNum r \<Rightarrow> of_int (floor r) = r | _ \<Rightarrow> False)"

text \<open>Lines 21 to 23. \<^verbatim>\<open>interval < 1\<close> is only reached for an integer.\<close>

definition constructorInterval :: "jsval \<Rightarrow> real" where
  "constructorInterval v =
     (case v of
        JNum r \<Rightarrow> if \<not> isInteger v \<or> r < 1 then DEFAULT_INTERVAL else r
      | _ \<Rightarrow> DEFAULT_INTERVAL)"

definition defaultCpuData :: obj where
  "defaultCpuData =
     [(''dateCaptured'', JNum 0),
      (''avgload'', JNum 0),
      (''currentload'', JNum 0),
      (''currentload_user'', JNum 0),
      (''currentload_system'', JNum 0),
      (''currentload_nice'', JNum 0),
      (''currentload_idle'', JNum 100),
      (''currentload_irq'', JNum 0),
      (''raw_currentload'', JNum 0),
      (''raw_currentload_user'', JNum 0),
      (''raw_currentload_system'', JNum 0),
      (''raw_currentload_nice'', JNum 0),
      (''raw_currentload_idle'', JNum 0),
      (''raw_currentload_irq'', JNum 0),
      (''cpus'', JArr [])]"

definition defaultNetworkData :: obj where
  "defaultNetworkData =
     [(''dateCaptured'', JNum 0),
      (''iface'', JStr ''unknown''),
      (''operstate'', JStr ''unknown''),
      (''rx'', JNum 0),
      (''tx'', JNum 0),
      (''rx_sec'', JNum (- 1)),
      (''tx_sec'', JNum (- 1)),
      (''ms'', JNum 0)]"

definition initializeDefaults :: "listener \<Rightarrow> listener" where
  "initializeDefaults this =
     this\<lparr>requestCount := 0,
          lastCpuData := defaultCpuData,
          lastNetworkData := defaultNetworkData,
          lastCpuError := JNull,
          lastNetworkError := JNull\<rparr>"

subsection \<open>Background sampling\<close>

text \<open>
  The instance's methods run to completion and leave callbacks behind: promise
  continuations, the two \<^verbatim>\<open>setInterval\<close> timers and the \<^verbatim>\<open>setTimeout\<close> of the
  bootstrap retry. What is still to run is part of the state: where each promise chain
  stands, and how many calls issued by a timer have not settled yet (a tick does not wait
  for the one before it).
\<close>

datatype cpuChain =
    CpuNotStarted
  | CpuSeedPending
  | CpuPolling

datatype netChain =
    NetNotStarted
  | NetResolving
  | NetRetryWait nat
  | NetSeedPending jsval
  | NetPolling jsval

record sys =
  self :: listener
  cpuChain :: cpuChain
  cpuInFlight :: nat
  netChain :: netChain
  netInFlight :: nat

text \<open>The synchronous part of \<^verbatim>\<open>_initCpuMonitoring\<close>: reset the counter, issue the
  first \<^verbatim>\<open>currentLoad()\<close>.\<close>

definition initCpuMonitoring :: "sys \<Rightarrow> sys" where
  "initCpuMonitoring s =
     s\<lparr>self := (self s)\<lparr>cpuIntervals := 0\<rparr>, cpuChain := CpuSeedPending\<rparr>"

text \<open>Its callbacks, in source order: the first call's \<^verbatim>\<open>then\<close> and \<^verbatim>\<open>catch\<close>
  (lines 73 to 84), and those of a call issued by the interval (lines 90 to 105).
  \<^verbatim>\<open>Moment.utc().unix()\<close> is the argument \<open>now\<close>.\<close>

definition cpuSeedThen :: "listener \<Rightarrow> listener" where
  "cpuSeedThen l = l\<lparr>cpuIntervals := jsIncrement (cpuIntervals l)\<rparr>"

definition cpuSeedCatch :: "jsval \<Rightarrow> listener \<Rightarrow> listener" where
  "cpuSeedCatch error l = l\<lparr>lastCpuError := error\<rparr>"

definition cpuSampleThen :: "obj \<Rightarrow> int \<Rightarrow> listener \<Rightarrow> listener" where
  "cpuSampleThen stats now l =
     (let l' = l\<lparr>cpuIntervals := jsIncrement (cpuIntervals l)\<rparr>
      in if cpuIntervals l' > 1
         then l'\<lparr>lastCpuData := setProp stats ''dateCaptured'' (JNum (of_int now)),
                 lastCpuError := JNull\<rparr>
         else l')"

definition cpuSampleCatch :: "jsval \<Rightarrow> listener \<Rightarrow> listener" where
  "cpuSampleCatch error l = l\<lparr>lastCpuError := error\<rparr>"

text \<open>The synchronous part of \<^verbatim>\<open>_initNetworkMonitoring\<close>, and its callbacks: the
  seed call's \<^verbatim>\<open>then\<close> and \<^verbatim>\<open>catch\<close> (lines 119 to 130), the \<^verbatim>\<open>then\<close> of a call
  issued by the interval (lines 137 to 145; that promise has no \<^verbatim>\<open>catch\<close>), and the
  outer \<^verbatim>\<open>catch\<close> (lines 151 to 159), whose timer is in \<open>fire\<close> below.\<close>

definition initNetworkMonitoring :: "sys \<Rightarrow> sys" where
  "initNetworkMonitoring s =
     s\<lparr>self := (self s)\<lparr>networkIntervals := 0\<rparr>, netChain := NetResolving\<rparr>"

definition netSeedThen :: "listener \<Rightarrow> listener" where
  "netSeedThen l = l\<lparr>networkIntervals := jsIncrement (networkIntervals l)\<rparr>"

definition netSeedCatch :: "jsval \<Rightarrow> listener \<Rightarrow> listener" where
  "netSeedCatch error l = l\<lparr>lastNetworkError := error\<rparr>"

definition netSampleThen :: "obj \<Rightarrow> int \<Rightarrow> listener \<Rightarrow> listener" where
  "netSampleThen stats now l =
     (let l' = l\<lparr>networkIntervals := jsIncrement (networkIntervals l)\<rparr>
      in if networkIntervals l' > 1
         then l'\<lparr>lastNetworkData := setProp stats ''dateCaptured'' (JNum (of_int now)),
                 lastNetworkError := JNull\<rparr>
         else l')"

definition netIfaceCatch :: "jsval \<Rightarrow> listener \<Rightarrow> listener" where
  "netIfaceCatch error l = l\<lparr>lastNetworkError := error\<rparr>"

definition RETRY_DELAY :: nat where
  "RETRY_DELAY = 1000"

subsection \<open>Responses\<close>

text \<open>The request carries what \<^verbatim>\<open>urlParse(req.url).pathname\<close> gives, a string or
  \<^verbatim>\<open>null\<close> (\<open>None\<close>: the URL has no path, as \<^verbatim>\<open>foo://bar\<close>), and the
  marker the listener sets on it. Of the response, the model keeps what the listener
  writes: the status code, the headers, and the data \<^verbatim>\<open>end\<close> was called with
  (\<open>None\<close> while it has not been called; \<^verbatim>\<open>end()\<close> sends the empty string).
  The listener never calls \<^verbatim>\<open>write\<close>, and \<^verbatim>\<open>end\<close> once per request.\<close>

record request =
  pathname :: "string option"
  requestHandled :: bool

record response =
  statusCode :: nat
  headers :: "string \<rightharpoonup> string"
  sent :: "string option"

definition setHeader :: "response \<Rightarrow> string \<Rightarrow> string \<Rightarrow> response" where
  "setHeader rs k v = rs\<lparr>headers := (headers rs)(k \<mapsto> v)\<rparr>"

definition endWith :: "response \<Rightarrow> string \<Rightarrow> response" where
  "endWith rs d = rs\<lparr>sent := Some d\<rparr>"

definition successResponse :: "platform \<Rightarrow> response \<Rightarrow> jsval \<Rightarrow> response" where
  "successResponse P rs stat =
     (let rs1 = rs\<lparr>statusCode := 200\<rparr>;
          rs2 = setHeader rs1 ''Content-Type'' ''application/json'';
          b = (case stat of JStr str \<Rightarrow> str | _ \<Rightarrow> JSON_stringify P stat)
      in endWith rs2 b)"

definition errorResponse :: "platform \<Rightarrow> response \<Rightarrow> jsval \<Rightarrow> response" where
  "errorResponse P rs error =
     (let rs1 = rs\<lparr>statusCode := 500\<rparr>;
          rs2 = setHeader rs1 ''Content-Type'' ''application/json'';
          b = (case error of JStr str \<Rightarrow> str | _ \<Rightarrow> JSON_stringify P error)
      in endWith rs2 b)"

subsection \<open>The request listener\<close>

text \<open>The template literal \<^verbatim>\<open>`{"metric": ${v}}`\<close>.\<close>

definition metricJson :: "platform \<Rightarrow> jsval \<Rightarrow> string" where
  \<open>metricJson P v = ''{"metric": '' @ ToString P v @ ''}''\<close>

text \<open>What one call of the listener leaves: the instance, the request, the response, and
  whether it called \<^verbatim>\<open>SystemInformation.mem()\<close> (whose callbacks write the response
  later).\<close>

record outcome =
  o_this :: listener
  o_req :: request
  o_res :: response
  o_mem :: bool

text \<open>
  Line 167 compares the pathname with the prefix and then calls \<^verbatim>\<open>startsWith\<close> on it.
  A \<^verbatim>\<open>null\<close> pathname differs from the prefix, so the call is reached and throws a
  \<^verbatim>\<open>TypeError\<close>: the listener does not return and has changed nothing.
\<close>

definition requestListener ::
  "platform \<Rightarrow> listener \<Rightarrow> request \<Rightarrow> response \<Rightarrow> js_error + outcome" where
  "requestListener P l rq rs =
     (case pathname rq of
        None \<Rightarrow> Inl TypeError
      | Some path \<Rightarrow> Inr
     (let pre = apiPath l
      in if path \<noteq> pre \<and> \<not> startsWith path (pre @ ''/'')
         then \<lparr>o_this = l\<lparr>requestCount := jsIncrement (requestCount l)\<rparr>,
               o_req = rq, o_res = rs, o_mem = False\<rparr>
         else
           let rq' = rq\<lparr>requestHandled := True\<rparr>
           in if path = pre @ ''/health''
              then \<lparr>o_this = l, o_req = rq',
                    o_res = endWith (rs\<lparr>statusCode := 200\<rparr>) ''ok'', o_mem = False\<rparr>
              else if path = pre @ ''/requests/total''
              then \<lparr>o_this = l, o_req = rq',
                    o_res = successResponse P rs
                      (JStr (metricJson P (JNum (of_nat (requestCount l))))),
                    o_mem = False\<rparr>
              else if path = pre @ ''/cpu''
              then \<lparr>o_this = l, o_req = rq',
                    o_res = (if truthy (lastCpuError l)
                             then errorResponse P rs (lastCpuError l)
                             else successResponse P rs (JObj (lastCpuData l))),
                    o_mem = False\<rparr>
              else if path = pre @ ''/memory''
              then \<lparr>o_this = l, o_req = rq', o_res = rs, o_mem = True\<rparr>
              else if path = pre @ ''/network''
              then \<lparr>o_this = l, o_req = rq',
                    o_res = (if truthy (lastNetworkError l)
                             then errorResponse P rs (lastNetworkError l)
                             else successResponse P rs (JObj (lastNetworkData l))),
                    o_mem = False\<rparr>
              else if path = pre @ ''/network/rx''
              then \<lparr>o_this = l, o_req = rq',
                    o_res = (if truthy (lastNetworkError l)
                             then errorResponse P rs (lastNetworkError l)
                             else successResponse P rs
                               (JStr (metricJson P (getProp (lastNetworkData l) ''rx'')))),
                    o_mem = False\<rparr>
              else if path = pre @ ''/network/tx''
              then \<lparr>o_this = l, o_req = rq',
                    o_res = (if truthy (lastNetworkError l)
                             then errorResponse P rs (lastNetworkError l)
                             else successResponse P rs
                               (JStr (metricJson P (getProp (lastNetworkData l) ''tx'')))),
                    o_mem = False\<rparr>
              else \<lparr>o_this = l\<lparr>requestCount := jsIncrement (requestCount l)\<rparr>,
                    o_req = rq',
                    o_res = endWith (rs\<lparr>statusCode := 404\<rparr>) [], o_mem = False\<rparr>))"

text \<open>The callbacks of the \<^verbatim>\<open>/memory\<close> route (lines 198 to 205).\<close>

definition memThen :: "platform \<Rightarrow> response \<Rightarrow> obj \<Rightarrow> int \<Rightarrow> response" where
  "memThen P rs memStats now =
     successResponse P rs (JObj (setProp memStats ''dateCaptured'' (JNum (of_int now))))"

definition memCatch :: "platform \<Rightarrow> response \<Rightarrow> jsval \<Rightarrow> response" where
  "memCatch P rs error = errorResponse P rs error"

subsection \<open>The constructor\<close>

text \<open>Lines 25 to 30, from the normalised arguments on. Fields the constructor has not
  assigned yet have placeholder values; each is assigned before it is read.\<close>

definition constructWith :: "string \<Rightarrow> real \<Rightarrow> sys" where
  "constructWith path ival =
     initNetworkMonitoring (initCpuMonitoring
       \<lparr>self = initializeDefaults
          \<lparr>apiPath = path, interval = ival, requestCount = 0,
           lastCpuData = [], lastNetworkData = [],
           lastCpuError = JUndefined, lastNetworkError = JUndefined,
           cpuIntervals = 0, networkIntervals = 0\<rparr>,
        cpuChain = CpuNotStarted, cpuInFlight = 0,
        netChain = NetNotStarted, netInFlight = 0\<rparr>)"

definition new_MetricsListener :: "jsval \<Rightarrow> jsval \<Rightarrow> js_error + sys" where
  "new_MetricsListener apiPathArg intervalArg =
     (case constructorApiPath apiPathArg of
        Inl e \<Rightarrow> Inl e
      | Inr path \<Rightarrow> Inr (constructWith path (constructorInterval intervalArg)))"

subsection \<open>The event loop\<close>

text \<open>
  Everything that happens to a constructed listener is one of these events: a promise of
  \<^verbatim>\<open>systeminformation\<close> settles (with the value or the reason it settles with, and
  for an adopted sample the clock's reading), a timer fires, a request arrives. \<open>fire\<close>
  runs the callback the source registered for the event and gives \<open>None\<close> for an event
  that cannot happen in the state (no such promise or timer is pending). A resolved
  snapshot is an object: the callbacks write a property on it. The promise of a call
  issued by the network interval has no rejection callback, so its rejection only
  retires the call. A request on which the listener throws leaves the instance as it
  was; the exception is the host's to deal with.
\<close>

datatype event =
    CpuSeedResolved obj
  | CpuSeedRejected jsval
  | CpuTimer
  | CpuSampleResolved obj int
  | CpuSampleRejected jsval
  | NetIfaceResolved jsval
  | NetIfaceRejected jsval
  | NetRetryTimer
  | NetSeedResolved obj
  | NetSeedRejected jsval
  | NetTimer
  | NetSampleResolved obj int
  | NetSampleRejected jsval
  | Request request response

fun fire :: "platform \<Rightarrow> event \<Rightarrow> sys \<Rightarrow> sys option" where
  "fire P (CpuSeedResolved v) s =
     (if cpuChain s = CpuSeedPending
      then Some (s\<lparr>self := cpuSeedThen (self s), cpuChain := CpuPolling\<rparr>)
      else None)"
| "fire P (CpuSeedRejected error) s =
     (if cpuChain s = CpuSeedPending
      then Some (s\<lparr>self := cpuSeedCatch error (self s), cpuChain := CpuPolling\<rparr>)
      else None)"
| "fire P CpuTimer s =
     (if cpuChain s = CpuPolling
      then Some (s\<lparr>cpuInFlight := cpuInFlight s + 1\<rparr>)
      else None)"
| "fire P (CpuSampleResolved stats now) s =
     (if cpuInFlight s > 0
      then Some (s\<lparr>self := cpuSampleThen stats now (self s),
                   cpuInFlight := cpuInFlight s - 1\<rparr>)
      else None)"
| "fire P (CpuSampleRejected error) s =
     (if cpuInFlight s > 0
      then Some (s\<lparr>self := cpuSampleCatch error (self s),
                   cpuInFlight := cpuInFlight s - 1\<rparr>)
      else None)"
| "fire P (NetIfaceResolved nic) s =
     (if netChain s = NetResolving
      then Some (s\<lparr>netChain := NetSeedPending nic\<rparr>)
      else None)"
| "fire P (NetIfaceRejected error) s =
     (if netChain s = NetResolving
      then Some (s\<lparr>self := netIfaceCatch error (self s),
                   netChain := NetRetryWait RETRY_DELAY\<rparr>)
      else None)"
| "fire P NetRetryTimer s =
     (case netChain s of
        NetRetryWait _ \<Rightarrow> Some (initNetworkMonitoring s)
      | _ \<Rightarrow> None)"
| "fire P (NetSeedResolved v) s =
     (case netChain s of
        NetSeedPending nic \<Rightarrow>
          Some (s\<lparr>self := netSeedThen (self s), netChain := NetPolling nic\<rparr>)
      | _ \<Rightarrow> None)"
| "fire P (NetSeedRejected error) s =
     (case netChain s of
        NetSeedPending nic \<Rightarrow>
          Some (s\<lparr>self := netSeedCatch error (self s), netChain := NetPolling nic\<rparr>)
      | _ \<Rightarrow> None)"
| "fire P NetTimer s =
     (case netChain s of
        NetPolling nic \<Rightarrow> Some (s\<lparr>netInFlight := netInFlight s + 1\<rparr>)
      | _ \<Rightarrow> None)"
| "fire P (NetSampleResolved stats now) s =
     (if netInFlight s > 0
      then Some (s\<lparr>self := netSampleThen stats now (self s),
                   netInFlight := netInFlight s - 1\<rparr>)
      else None)"
| "fire P (NetSampleRejected error) s =
     (if netInFlight s > 0
      then Some (s\<lparr>netInFlight := netInFlight s - 1\<rparr>)
      else None)"
| "fire P (Request rq rs) s =
     (case requestListener P (self s) rq rs of
        Inl _ \<Rightarrow> Some s
      | Inr out \<Rightarrow> Some (s\<lparr>self := o_this out\<rparr>))"

fun run :: "platform \<Rightarrow> event list \<Rightarrow> sys \<Rightarrow> sys option" where
  "run P [] s = Some s"
| "run P (e # es) s = (case fire P e s of None \<Rightarrow> None | Some s' \<Rightarrow> run P es s')"

text \<open>The samples of a trace that completed successfully, in the order they completed:
  the first call's value and the values of the calls the interval issued.\<close>

fun cpuSuccesses :: "event list \<Rightarrow> obj list" where
  "cpuSuccesses [] = []"
| "cpuSuccesses (CpuSeedResolved v # es) = v # cpuSuccesses es"
| "cpuSuccesses (CpuSampleResolved stats now # es) = stats # cpuSuccesses es"
| "cpuSuccesses (_ # es) = cpuSuccesses es"

fun netSuccesses :: "event list \<Rightarrow> obj list" where
  "netSuccesses [] = []"
| "netSuccesses (NetSeedResolved v # es) = v # netSuccesses es"
| "netSuccesses (NetSampleResolved stats now # es) = stats # netSuccesses es"
| "netSuccesses (_ # es) = netSuccesses es"

text \<open>An event adopts a sample when it is the completion of an interval's call and the
  guard \<^verbatim>\<open>++this.cpuIntervals > 1\<close> (or its network twin) holds. A trace has adopted a sample when one of
  its events did, in the state the event fired in.\<close>

fun adoptsCpu :: "event \<Rightarrow> sys \<Rightarrow> bool" where
  "adoptsCpu (CpuSampleResolved stats now) s = (jsIncrement (cpuIntervals (self s)) > 1)"
| "adoptsCpu _ s = False"

fun adoptsNet :: "event \<Rightarrow> sys \<Rightarrow> bool" where
  "adoptsNet (NetSampleResolved stats now) s = (jsIncrement (networkIntervals (self s)) > 1)"
| "adoptsNet _ s = False"

fun cpuAdopted :: "platform \<Rightarrow> event list \<Rightarrow> sys \<Rightarrow> bool" where
  "cpuAdopted P [] s = False"
| "cpuAdopted P (e # es) s =
     (adoptsCpu e s \<or> (case fire P e s of None \<Rightarrow> False | Some s' \<Rightarrow> cpuAdopted P es s'))"

fun netAdopted :: "platform \<Rightarrow> event list \<Rightarrow> sys \<Rightarrow> bool" where
  "netAdopted P [] s = False"
| "netAdopted P (e # es) s =
     (adoptsNet e s \<or> (case fire P e s of None \<Rightarrow> False | Some s' \<Rightarrow> netAdopted P es s'))"

text \<open>The capture stamp, \<^verbatim>\<open>stats['dateCaptured'] = Moment.utc().unix()\<close>.\<close>

definition stamped :: "int \<Rightarrow> obj \<Rightarrow> obj" where
  "stamped now stats = setProp stats ''dateCaptured'' (JNum (of_int now))"

text \<open>What holds of a cell after a trace with the successful samples \<open>oks\<close>: the counter
  counts them (up to \<open>MAX_COUNT\<close>), none completed before the interval started, and the cached value is the
  default up to the first one and the stamped last one from the second on.\<close>

definition cpuCell :: "obj list \<Rightarrow> sys \<Rightarrow> bool" where
  "cpuCell oks s =
     (cpuIntervals (self s) = min (length oks) MAX_COUNT \<and>
      (cpuChain s = CpuPolling \<or> (oks = [] \<and> cpuInFlight s = 0)) \<and>
      (if length oks \<le> 1 then lastCpuData (self s) = defaultCpuData
       else \<exists>now. lastCpuData (self s) = stamped now (last oks)))"

definition netCell :: "obj list \<Rightarrow> sys \<Rightarrow> bool" where
  "netCell oks s =
     (networkIntervals (self s) = min (length oks) MAX_COUNT \<and>
      ((\<exists>nic. netChain s = NetPolling nic) \<or> (oks = [] \<and> netInFlight s = 0)) \<and>
      (if length oks \<le> 1 then lastNetworkData (self s) = defaultNetworkData
       else \<exists>now. lastNetworkData (self s) = stamped now (last oks)))"


subsection \<open>The routing table and the encoding, as specified\<close>

text \<open>A path is under the prefix when it is the prefix or starts with the prefix and a
  slash; it is matched when it is the prefix followed by one of the seven routes.\<close>

definition underPrefix :: "string \<Rightarrow> string \<Rightarrow> bool" where
  "underPrefix pre path = (path = pre \<or> startsWith path (pre @ ''/''))"

definition routes :: "string list" where
  "routes = [''/health'', ''/requests/total'', ''/cpu'', ''/memory'',
             ''/network'', ''/network/rx'', ''/network/tx'']"

definition matched :: "string \<Rightarrow> string \<Rightarrow> bool" where
  "matched pre path = (path \<in> set (map (\<lambda>r. pre @ r) routes))"

text \<open>A payload's encoding: a string as it is, anything else serialised.\<close>

definition serialized :: "platform \<Rightarrow> jsval \<Rightarrow> string" where
  "serialized P v = (case v of JStr str \<Rightarrow> str | _ \<Rightarrow> JSON_stringify P v)"

subsection \<open>Prefix normalisation, as specified\<close>

text \<open>The specification's words for the loop: the path with its trailing slashes
  removed.\<close>

definition withoutTrailingSlashes :: "string \<Rightarrow> string" where
  "withoutTrailingSlashes path = rev (dropWhile (\<lambda>c. c = CHR ''/'') (rev path))"

text \<open>A whitespace-only path: not empty, and made of blanks, tabs and line breaks.\<close>

definition whitespaceOnly :: "string \<Rightarrow> bool" where
  "whitespaceOnly path =
     (path \<noteq> [] \<and>
      list_all (\<lambda>c. c \<in> set [CHR '' '', CHR 0x09, CHR 0x0A, CHR 0x0B, CHR 0x0C, CHR 0x0D]) path)"

subsection \<open>Sample inputs\<close>

text \<open>A platform, a request maker and a fresh response to evaluate the model on: the
  serialiser of this platform writes every value as \<open>{}\<close> and its \<open>ToString\<close> writes
  \<open>0\<close>; a fresh response has Node's initial status 200, no header and nothing sent.\<close>

definition samplePlatform :: platform where
  "samplePlatform = \<lparr>JSON_stringify = (\<lambda>_. ''{}''), ToString = (\<lambda>_. ''0'')\<rparr>"

definition requestFor :: "string \<Rightarrow> request" where
  "requestFor path = \<lparr>pathname = Some path, requestHandled = False\<rparr>"

definition freshResponse :: response where
  "freshResponse = \<lparr>statusCode = 200, headers = Map.empty, sent = None\<rparr>"

section \<open>Counters\<close>

lemma MAX_COUNT_gt: "1 < MAX_COUNT"
  by (simp add: MAX_COUNT_def)

lemma jsIncrement_below: "n < MAX_COUNT \<Longrightarrow> jsIncrement n = n + 1"
  by (simp add: jsIncrement_def)

lemma jsIncrement_at: "jsIncrement MAX_COUNT = MAX_COUNT"
  by (simp add: jsIncrement_def)

lemma jsIncrement_0: "jsIncrement 0 = 1"
  using MAX_COUNT_gt by (simp add: jsIncrement_def)

lemma min_one_MAX_COUNT: "min (Suc 0) MAX_COUNT = Suc 0"
  using MAX_COUNT_gt by simp

lemma counted:
  assumes "c = min n MAX_COUNT"
  shows "jsIncrement c = min (Suc n) MAX_COUNT" and "1 < jsIncrement c \<longleftrightarrow> n \<noteq> 0"
  using assms MAX_COUNT_gt by (auto simp: jsIncrement_def min_def)

lemma jsIncrement_le: "n \<le> MAX_COUNT \<Longrightarrow> jsIncrement n \<le> MAX_COUNT"
  by (auto simp: jsIncrement_def)

section \<open>Prefix normalisation\<close>

lemma endsWith_slash: "endsWith p ''/'' \<longleftrightarrow> p \<noteq> [] \<and> last p = CHR ''/''"
proof (cases p rule: rev_cases)
  case Nil
  then show ?thesis by (simp add: endsWith_def)
next
  case (snoc ys y)
  then show ?thesis by (auto simp: endsWith_def)
qed

lemma substring_butlast: "substring p 0 (length p - 1) = butlast p"
  by (simp add: substring_def butlast_conv_take)

lemma withoutTrailingSlashes_snoc:
  "withoutTrailingSlashes (ys @ [y]) = (if y = CHR ''/'' then withoutTrailingSlashes ys else ys @ [y])"
  by (simp add: withoutTrailingSlashes_def)

lemma stripLoop_spec: "stripLoop p = withoutTrailingSlashes p"
proof (induction p rule: stripLoop.induct)
  case (1 path)
  show ?case
  proof (cases path rule: rev_cases)
    case Nil
    then show ?thesis
      by (simp add: stripLoop.simps [of "[]"] endsWith_slash withoutTrailingSlashes_def)
  next
    case (snoc ys y)
    show ?thesis
    proof (cases "y = CHR ''/''")
      case True
      with snoc have e: "endsWith path ''/''" by (simp add: endsWith_slash)
      have "stripLoop path = stripLoop (substring path 0 (length path - 1))"
        using e by (subst stripLoop.simps) simp
      also have "\<dots> = withoutTrailingSlashes (substring path 0 (length path - 1))"
        using "1.IH" [OF e] .
      also have "\<dots> = withoutTrailingSlashes (butlast path)"
        by (simp only: substring_butlast)
      also have "\<dots> = withoutTrailingSlashes path"
        using snoc True by (simp add: withoutTrailingSlashes_snoc)
      finally show ?thesis .
    next
      case False
      with snoc have e: "\<not> endsWith path ''/''" by (simp add: endsWith_slash)
      then have "stripLoop path = path" by (subst stripLoop.simps) simp
      with snoc False show ?thesis by (simp add: withoutTrailingSlashes_snoc)
    qed
  qed
qed

lemma withoutTrailingSlashes_no_slash:
  "\<not> endsWith (withoutTrailingSlashes p) ''/''"
proof -
  have "dropWhile (\<lambda>c. c = CHR ''/'') (rev p) = [] \<or> hd (dropWhile (\<lambda>c. c = CHR ''/'') (rev p)) \<noteq> CHR ''/''"
    using hd_dropWhile [of "\<lambda>c. c = CHR ''/''" "rev p"] by blast
  then show ?thesis
    by (auto simp: endsWith_slash withoutTrailingSlashes_def last_rev)
qed

lemma whitespaceOnly_keeps: "whitespaceOnly p \<Longrightarrow> withoutTrailingSlashes p = p"
proof (cases p rule: rev_cases)
  case Nil
  then show ?thesis by (simp add: withoutTrailingSlashes_def)
next
  case (snoc ys y)
  assume "whitespaceOnly p"
  with snoc have "y \<noteq> CHR ''/''" by (auto simp: whitespaceOnly_def)
  with snoc show ?thesis by (simp add: withoutTrailingSlashes_snoc)
qed

lemma constructorApiPath_string:
  "constructorApiPath (JStr p) =
     Inr (if withoutTrailingSlashes p = [] then DEFAULT_PATH_PREFIX else withoutTrailingSlashes p)"
  by (cases "p = []")
     (simp_all add: constructorApiPath_def stripLoop_spec Let_def DEFAULT_PATH_PREFIX_def
        withoutTrailingSlashes_def)

lemma constructorApiPath_falsy:
  "\<not> truthy a \<Longrightarrow> constructorApiPath a = Inr DEFAULT_PATH_PREFIX"
  by (simp add: constructorApiPath_def stripLoop_spec Let_def DEFAULT_PATH_PREFIX_def
        withoutTrailingSlashes_def)

lemma apiPath_constructWith: "apiPath (self (constructWith path ival)) = path"
  by (simp add: constructWith_def initNetworkMonitoring_def initCpuMonitoring_def
        initializeDefaults_def)

lemma construct_fields:
  "apiPath (self (constructWith path ival)) = path"
  "requestCount (self (constructWith path ival)) = 0"
  "lastCpuData (self (constructWith path ival)) = defaultCpuData"
  "lastNetworkData (self (constructWith path ival)) = defaultNetworkData"
  "lastCpuError (self (constructWith path ival)) = JNull"
  "lastNetworkError (self (constructWith path ival)) = JNull"
  "cpuIntervals (self (constructWith path ival)) = 0"
  "networkIntervals (self (constructWith path ival)) = 0"
  "cpuChain (constructWith path ival) = CpuSeedPending"
  "netChain (constructWith path ival) = NetResolving"
  "cpuInFlight (constructWith path ival) = 0"
  "netInFlight (constructWith path ival) = 0"
  by (simp_all add: constructWith_def initNetworkMonitoring_def initCpuMonitoring_def
        initializeDefaults_def)

lemma new_MetricsListener_Inr:
  "new_MetricsListener a i = Inr s0 \<Longrightarrow> \<exists>path. s0 = constructWith path (constructorInterval i)"
  by (auto simp: new_MetricsListener_def split: sum.splits)

lemma new_default:
  "new_MetricsListener JUndefined JUndefined = Inr (constructWith ''/metrics'' 1000)"
  by (simp add: new_MetricsListener_def constructorApiPath_falsy constructorInterval_def
        DEFAULT_PATH_PREFIX_def DEFAULT_INTERVAL_def)

text \<open>
  C5 (amended). Prefix normalisation at construction: for every string \<open>apiPath\<close> the
  constructor succeeds and the effective prefix is the argument with all its trailing
  slashes removed, replaced by the default \<open>/metrics\<close> when nothing is left (the
  argument was empty or all slashes); it never ends with a slash. A whitespace-only
  argument is kept as it is. An argument that is not truthy (absent, \<open>null\<close>) gives the
  default. In particular \<open>/m/\<close> gives \<open>/m\<close> and the empty string gives \<open>/metrics\<close>.
\<close>

theorem prefix_normalisation:
  "(\<exists>s. new_MetricsListener (JStr p) i = Inr s \<and>
        apiPath (self s) =
          (if withoutTrailingSlashes p = [] then DEFAULT_PATH_PREFIX
           else withoutTrailingSlashes p) \<and>
        \<not> endsWith (apiPath (self s)) ''/'' \<and>
        (whitespaceOnly p \<longrightarrow> apiPath (self s) = p))
   \<and> (\<not> truthy a \<longrightarrow>
        (\<exists>s. new_MetricsListener a i = Inr s \<and> apiPath (self s) = DEFAULT_PATH_PREFIX))
   \<and> (\<exists>s. new_MetricsListener (JStr ''/m/'') i = Inr s \<and> apiPath (self s) = ''/m'')
   \<and> (\<exists>s. new_MetricsListener (JStr []) i = Inr s \<and> apiPath (self s) = ''/metrics'')"
proof -
  let ?q = "if withoutTrailingSlashes p = [] then DEFAULT_PATH_PREFIX
            else withoutTrailingSlashes p"
  have new: "new_MetricsListener (JStr x) i =
      Inr (constructWith (if withoutTrailingSlashes x = [] then DEFAULT_PATH_PREFIX
                      else withoutTrailingSlashes x) (constructorInterval i))" for x
    by (simp add: new_MetricsListener_def constructorApiPath_string)
  have noslash: "\<not> endsWith ?q ''/''"
    using withoutTrailingSlashes_no_slash [of p]
    by (auto simp: DEFAULT_PATH_PREFIX_def endsWith_slash)
  have ws: "whitespaceOnly p \<longrightarrow> ?q = p"
    using whitespaceOnly_keeps [of p] by (auto simp: whitespaceOnly_def)
  have c1: "\<exists>s. new_MetricsListener (JStr p) i = Inr s \<and> apiPath (self s) = ?q \<and>
        \<not> endsWith (apiPath (self s)) ''/'' \<and> (whitespaceOnly p \<longrightarrow> apiPath (self s) = p)"
    using noslash ws by (simp add: new apiPath_constructWith)
  have c2: "\<not> truthy a \<longrightarrow>
        (\<exists>s. new_MetricsListener a i = Inr s \<and> apiPath (self s) = DEFAULT_PATH_PREFIX)"
    by (simp add: new_MetricsListener_def constructorApiPath_falsy apiPath_constructWith)
  have c3: "\<exists>s. new_MetricsListener (JStr ''/m/'') i = Inr s \<and> apiPath (self s) = ''/m''"
    by (simp add: new apiPath_constructWith withoutTrailingSlashes_def)
  have c4: "\<exists>s. new_MetricsListener (JStr []) i = Inr s \<and> apiPath (self s) = ''/metrics''"
    by (simp add: new apiPath_constructWith withoutTrailingSlashes_def DEFAULT_PATH_PREFIX_def)
  from c1 c2 c3 c4 show ?thesis by blast
qed

theorem prefix_normalisation_witness:
  "whitespaceOnly ''  '' \<and> \<not> truthy JNull \<and>
   (\<exists>s. new_MetricsListener (JStr ''  '') (JNum 5) = Inr s \<and> apiPath (self s) = ''  '') \<and>
   (\<exists>s. new_MetricsListener JNull (JNum 5) = Inr s \<and> apiPath (self s) = DEFAULT_PATH_PREFIX)"
proof -
  have w: "whitespaceOnly ''  ''" by (simp add: whitespaceOnly_def)
  have f: "\<not> truthy JNull" by simp
  from prefix_normalisation [of "''  ''" "JNum 5" JNull] w f show ?thesis by blast
qed

text \<open>
  C5 as stated fails on a whitespace-only argument: a single blank is whitespace-only,
  and the constructor keeps it as the prefix instead of the default.
\<close>

theorem prefix_whitespace_counterexample:
  "whitespaceOnly '' '' \<and>
   new_MetricsListener (JStr '' '') JUndefined = Inr (constructWith '' '' DEFAULT_INTERVAL) \<and>
   apiPath (self (constructWith '' '' DEFAULT_INTERVAL)) = '' '' \<and>
   '' '' \<noteq> DEFAULT_PATH_PREFIX"
  by (simp add: whitespaceOnly_def new_MetricsListener_def constructorApiPath_def
        stripLoop.simps [of "'' ''"] endsWith_def DEFAULT_PATH_PREFIX_def
        constructorInterval_def apiPath_constructWith)

section \<open>Routing and encoding\<close>

lemma startsWith_append: "startsWith (pre @ x) (pre @ y) = startsWith x y"
  by (simp add: startsWith_def)

lemma matched_under: "matched pre path \<Longrightarrow> underPrefix pre path"
  by (auto simp: matched_def routes_def underPrefix_def startsWith_append)
     (simp_all add: startsWith_def)

lemma matched_iff:
  "matched pre path \<longleftrightarrow>
     path = pre @ ''/health'' \<or> path = pre @ ''/requests/total'' \<or> path = pre @ ''/cpu'' \<or>
     path = pre @ ''/memory'' \<or> path = pre @ ''/network'' \<or> path = pre @ ''/network/rx'' \<or>
     path = pre @ ''/network/tx''"
  by (simp add: matched_def routes_def)

lemma requestListener_null:
  "pathname rq = None \<Longrightarrow> requestListener P l rq rs = Inl TypeError"
  by (simp add: requestListener_def)

lemma requestListener_returns:
  "pathname rq = Some path \<Longrightarrow> \<exists>out. requestListener P l rq rs = Inr out"
  by (simp add: requestListener_def)

lemma requestListener_outside:
  "pathname rq = Some path \<Longrightarrow> \<not> underPrefix (apiPath l) path \<Longrightarrow>
   requestListener P l rq rs =
     Inr \<lparr>o_this = l\<lparr>requestCount := jsIncrement (requestCount l)\<rparr>,
          o_req = rq, o_res = rs, o_mem = False\<rparr>"
  by (simp add: requestListener_def underPrefix_def Let_def)

lemma requestListener_unmatched:
  "pathname rq = Some path \<Longrightarrow> underPrefix (apiPath l) path \<Longrightarrow>
   \<not> matched (apiPath l) path \<Longrightarrow>
   requestListener P l rq rs =
     Inr \<lparr>o_this = l\<lparr>requestCount := jsIncrement (requestCount l)\<rparr>,
          o_req = rq\<lparr>requestHandled := True\<rparr>,
          o_res = endWith (rs\<lparr>statusCode := 404\<rparr>) [], o_mem = False\<rparr>"
  by (auto simp: requestListener_def underPrefix_def Let_def matched_iff)

lemma requestListener_matched_this:
  "pathname rq = Some path \<Longrightarrow> matched (apiPath l) path \<Longrightarrow>
   requestListener P l rq rs = Inr out \<Longrightarrow> o_this out = l"
  using matched_under [of "apiPath l" path]
  by (auto simp: requestListener_def underPrefix_def Let_def matched_iff)

lemma requestListener_under_req:
  "pathname rq = Some path \<Longrightarrow> underPrefix (apiPath l) path \<Longrightarrow>
   requestListener P l rq rs = Inr out \<Longrightarrow> o_req out = rq\<lparr>requestHandled := True\<rparr>"
  by (auto simp: requestListener_def underPrefix_def Let_def)

lemma requestListener_this:
  "requestListener P l rq rs = Inr out \<Longrightarrow>
   o_this out = l \<or> o_this out = l\<lparr>requestCount := jsIncrement (requestCount l)\<rparr>"
  by (auto simp: requestListener_def Let_def split: option.splits if_splits)

lemma fire_Request:
  "fire P (Request rq rs) s = Some s' \<Longrightarrow>
   s' = s \<or> s' = s\<lparr>self := (self s)\<lparr>requestCount := jsIncrement (requestCount (self s))\<rparr>\<rparr>"
  using requestListener_this [of P "self s" rq rs]
  by (auto split: sum.splits)

text \<open>
  C3 (amended). For every request whose URL has a path (the parsed pathname is not
  \<open>null\<close>), the listener returns, and the request counter is incremented exactly
  when the path is outside the prefix (neither the prefix nor the prefix followed by a
  slash) or is under the prefix and matches none of the seven routes; a request matched
  to \<open>/health\<close>, \<open>/requests/total\<close>, \<open>/cpu\<close>, \<open>/memory\<close>, \<open>/network\<close>,
  \<open>/network/rx\<close> or \<open>/network/tx\<close> leaves the counter as it is. The increment is
  that of a JavaScript number: one more while the counter is below \<open>2^53\<close>, and no
  change once it is \<open>2^53\<close>.
\<close>

theorem request_counting:
  assumes "pathname rq = Some path"
  shows "(\<exists>out. requestListener P l rq rs = Inr out \<and>
      requestCount (o_this out) =
        (if \<not> underPrefix (apiPath l) path \<or>
            (underPrefix (apiPath l) path \<and> \<not> matched (apiPath l) path)
         then jsIncrement (requestCount l) else requestCount l) \<and>
      (\<forall>r \<in> set routes. path = apiPath l @ r \<longrightarrow>
         requestCount (o_this out) = requestCount l))
    \<and> (requestCount l < 2 ^ 53 \<longrightarrow> jsIncrement (requestCount l) = requestCount l + 1)
    \<and> (requestCount l = 2 ^ 53 \<longrightarrow> jsIncrement (requestCount l) = requestCount l)"
proof -
  from requestListener_returns [OF assms] obtain out
    where out: "requestListener P l rq rs = Inr out" by blast
  have a: "requestCount (o_this out) =
        (if \<not> underPrefix (apiPath l) path \<or>
            (underPrefix (apiPath l) path \<and> \<not> matched (apiPath l) path)
         then jsIncrement (requestCount l) else requestCount l)"
  proof (cases "underPrefix (apiPath l) path")
    case False
    with out requestListener_outside [OF assms False, of P rs] show ?thesis by auto
  next
    case u: True
    show ?thesis
    proof (cases "matched (apiPath l) path")
      case True
      with u requestListener_matched_this [OF assms True out] show ?thesis by simp
    next
      case False
      with u out requestListener_unmatched [OF assms u False, of P rs] show ?thesis by auto
    qed
  qed
  have b: "\<forall>r \<in> set routes. path = apiPath l @ r \<longrightarrow>
         requestCount (o_this out) = requestCount l"
  proof (intro ballI impI)
    fix r assume "r \<in> set routes" "path = apiPath l @ r"
    then have "matched (apiPath l) path" by (auto simp: matched_def)
    from requestListener_matched_this [OF assms this out]
    show "requestCount (o_this out) = requestCount l" by simp
  qed
  have c: "requestCount l < 2 ^ 53 \<longrightarrow> jsIncrement (requestCount l) = requestCount l + 1"
    and d: "requestCount l = 2 ^ 53 \<longrightarrow> jsIncrement (requestCount l) = requestCount l"
    by (simp_all add: jsIncrement_def MAX_COUNT_def)
  from out a b c d show ?thesis by blast
qed

theorem request_counting_witness:
  "pathname (requestFor ''/other/path'') = Some ''/other/path'' \<and>
   \<not> underPrefix ''/metrics'' ''/other/path'' \<and>
   (\<exists>out. requestListener samplePlatform (self (constructWith ''/metrics'' 1000))
             (requestFor ''/other/path'') freshResponse = Inr out \<and>
          requestCount (o_this out) = 1) \<and>
   ''/cpu'' \<in> set routes \<and>
   (\<exists>out. requestListener samplePlatform (self (constructWith ''/metrics'' 1000))
             (requestFor ''/metrics/cpu'') freshResponse = Inr out \<and>
          requestCount (o_this out) = 0)"
proof -
  let ?l = "self (constructWith ''/metrics'' 1000)"
  have p1: "pathname (requestFor ''/other/path'') = Some ''/other/path''"
    and p2: "pathname (requestFor ''/metrics/cpu'') = Some ''/metrics/cpu''"
    by (simp_all add: requestFor_def)
  have o: "\<not> underPrefix ''/metrics'' ''/other/path''"
    by (simp add: underPrefix_def startsWith_def)
  have r: "''/cpu'' \<in> set routes" by (simp add: routes_def)
  from request_counting [OF p1, of samplePlatform ?l freshResponse] o
  have a: "\<exists>out. requestListener samplePlatform ?l (requestFor ''/other/path'') freshResponse
             = Inr out \<and> requestCount (o_this out) = 1"
    by (simp add: construct_fields jsIncrement_0)
  from request_counting [OF p2, of samplePlatform ?l freshResponse] r
  have b: "\<exists>out. requestListener samplePlatform ?l (requestFor ''/metrics/cpu'') freshResponse
             = Inr out \<and> requestCount (o_this out) = 0"
    by (auto simp: construct_fields)
  from p1 o a r b show ?thesis by blast
qed

text \<open>
  C3 as stated fails twice. A request whose URL has no path is outside the prefix, and
  the listener throws on it without counting. With the counter at \<open>2^53\<close>, a request
  outside the prefix is answered as usual and the counter is \<open>2^53\<close> afterwards.
\<close>

theorem request_counting_counterexample:
  "requestListener samplePlatform (self (constructWith ''/metrics'' 1000))
      \<lparr>pathname = None, requestHandled = False\<rparr> freshResponse = Inl TypeError \<and>
   \<not> underPrefix ''/metrics'' ''/other/path'' \<and>
   requestListener samplePlatform
      ((self (constructWith ''/metrics'' 1000))\<lparr>requestCount := 2 ^ 53\<rparr>)
      (requestFor ''/other/path'') freshResponse =
     Inr \<lparr>o_this = (self (constructWith ''/metrics'' 1000))\<lparr>requestCount := 2 ^ 53\<rparr>,
          o_req = requestFor ''/other/path'', o_res = freshResponse, o_mem = False\<rparr>"
  by (simp add: requestListener_def requestFor_def construct_fields underPrefix_def
        startsWith_def Let_def jsIncrement_def MAX_COUNT_def)

text \<open>
  C6 (amended). For a request whose URL has a path: when the path is neither the
  prefix nor starts with the prefix and a slash, the request is not claimed (it keeps
  its marker), the counter is incremented (by one while it is below \<open>2^53\<close>, where it
  stays), and the listener returns with nothing written to the response (status,
  headers and sent data are as they were, and no memory call is made); when the path is
  under the prefix, the claimed marker is set.
\<close>

theorem request_claiming:
  assumes "pathname rq = Some path"
  shows "(\<exists>out. requestListener P l rq rs = Inr out \<and>
      (\<not> underPrefix (apiPath l) path \<longrightarrow>
         o_req out = rq \<and> o_res out = rs \<and> \<not> o_mem out \<and>
         o_this out = l\<lparr>requestCount := jsIncrement (requestCount l)\<rparr>) \<and>
      (underPrefix (apiPath l) path \<longrightarrow> o_req out = rq\<lparr>requestHandled := True\<rparr>))
    \<and> (requestCount l < 2 ^ 53 \<longrightarrow> jsIncrement (requestCount l) = requestCount l + 1)
    \<and> (requestCount l = 2 ^ 53 \<longrightarrow> jsIncrement (requestCount l) = requestCount l)"
proof -
  from requestListener_returns [OF assms] obtain out
    where out: "requestListener P l rq rs = Inr out" by blast
  have a: "\<not> underPrefix (apiPath l) path \<longrightarrow>
         o_req out = rq \<and> o_res out = rs \<and> \<not> o_mem out \<and>
         o_this out = l\<lparr>requestCount := jsIncrement (requestCount l)\<rparr>"
    using out requestListener_outside [OF assms, of l P rs] by auto
  have b: "underPrefix (apiPath l) path \<longrightarrow> o_req out = rq\<lparr>requestHandled := True\<rparr>"
    using requestListener_under_req [OF assms _ out] by blast
  have c: "requestCount l < 2 ^ 53 \<longrightarrow> jsIncrement (requestCount l) = requestCount l + 1"
    and d: "requestCount l = 2 ^ 53 \<longrightarrow> jsIncrement (requestCount l) = requestCount l"
    by (simp_all add: jsIncrement_def MAX_COUNT_def)
  from out a b c d show ?thesis by blast
qed

theorem request_claiming_witness:
  "pathname (requestFor ''/other/path'') = Some ''/other/path'' \<and>
   \<not> underPrefix ''/metrics'' ''/other/path'' \<and>
   (\<exists>out. requestListener samplePlatform (self (constructWith ''/metrics'' 1000))
             (requestFor ''/other/path'') freshResponse = Inr out \<and>
          o_req out = requestFor ''/other/path'' \<and> o_res out = freshResponse \<and>
          requestCount (o_this out) = 1) \<and>
   underPrefix ''/metrics'' ''/metrics/bogus'' \<and>
   (\<exists>out. requestListener samplePlatform (self (constructWith ''/metrics'' 1000))
             (requestFor ''/metrics/bogus'') freshResponse = Inr out \<and>
          requestHandled (o_req out))"
proof -
  let ?l = "self (constructWith ''/metrics'' 1000)"
  have p1: "pathname (requestFor ''/other/path'') = Some ''/other/path''"
    and p2: "pathname (requestFor ''/metrics/bogus'') = Some ''/metrics/bogus''"
    by (simp_all add: requestFor_def)
  have o: "\<not> underPrefix ''/metrics'' ''/other/path''"
    by (simp add: underPrefix_def startsWith_def)
  have u: "underPrefix ''/metrics'' ''/metrics/bogus''"
    by (simp add: underPrefix_def startsWith_def)
  from request_claiming [OF p1, of samplePlatform ?l freshResponse] o
  have a: "\<exists>out. requestListener samplePlatform ?l (requestFor ''/other/path'') freshResponse
             = Inr out \<and> o_req out = requestFor ''/other/path'' \<and> o_res out = freshResponse \<and>
             requestCount (o_this out) = 1"
    by (auto simp: construct_fields jsIncrement_0)
  from request_claiming [OF p2, of samplePlatform ?l freshResponse] u
  have b: "\<exists>out. requestListener samplePlatform ?l (requestFor ''/metrics/bogus'') freshResponse
             = Inr out \<and> requestHandled (o_req out)"
    by (auto simp: construct_fields)
  from p1 o a u b show ?thesis by blast
qed

text \<open>
  C6 as stated fails twice. For a request whose URL has no path the listener throws:
  it does not return, and the instance is as before, its counter included. With the
  counter at \<open>2^53\<close>, a request outside the prefix leaves the whole instance as it
  was.
\<close>

theorem request_claiming_counterexample:
  "requestListener samplePlatform (self (constructWith ''/metrics'' 1000))
      \<lparr>pathname = None, requestHandled = False\<rparr> freshResponse = Inl TypeError \<and>
   fire samplePlatform (Request \<lparr>pathname = None, requestHandled = False\<rparr> freshResponse)
      (constructWith ''/metrics'' 1000) = Some (constructWith ''/metrics'' 1000) \<and>
   requestCount (self (constructWith ''/metrics'' 1000)) = 0 \<and>
   \<not> underPrefix ''/metrics'' ''/elsewhere'' \<and>
   fire samplePlatform (Request (requestFor ''/elsewhere'') freshResponse)
      ((constructWith ''/metrics'' 1000)
         \<lparr>self := (self (constructWith ''/metrics'' 1000))\<lparr>requestCount := 2 ^ 53\<rparr>\<rparr>) =
     Some ((constructWith ''/metrics'' 1000)
         \<lparr>self := (self (constructWith ''/metrics'' 1000))\<lparr>requestCount := 2 ^ 53\<rparr>\<rparr>)"
  by (simp add: requestListener_def requestFor_def construct_fields underPrefix_def
        startsWith_def Let_def jsIncrement_def MAX_COUNT_def)

lemma serialized_string: "serialized P (JStr str) = str"
  by (simp add: serialized_def)

lemma successResponse_fields:
  "statusCode (successResponse P rs v) = 200"
  "headers (successResponse P rs v) ''Content-Type'' = Some ''application/json''"
  "sent (successResponse P rs v) = Some (serialized P v)"
  by (simp_all add: successResponse_def setHeader_def endWith_def serialized_def Let_def)

lemma errorResponse_fields:
  "statusCode (errorResponse P rs e) = 500"
  "headers (errorResponse P rs e) ''Content-Type'' = Some ''application/json''"
  "sent (errorResponse P rs e) = Some (serialized P e)"
  by (simp_all add: errorResponse_def setHeader_def endWith_def serialized_def Let_def)

text \<open>
  C7. Response encoding: \<open>successResponse\<close> sets status 200 and the content type
  \<open>application/json\<close>, and sends the value itself when it is a string and its JSON
  serialisation otherwise; \<open>errorResponse\<close> sets status 500 with the same content type
  and the same rule for what it sends.
\<close>

theorem response_encoding:
  "statusCode (successResponse P rs v) = 200 \<and>
   headers (successResponse P rs v) ''Content-Type'' = Some ''application/json'' \<and>
   (\<forall>str. v = JStr str \<longrightarrow> sent (successResponse P rs v) = Some str) \<and>
   ((\<forall>str. v \<noteq> JStr str) \<longrightarrow> sent (successResponse P rs v) = Some (JSON_stringify P v)) \<and>
   statusCode (errorResponse P rs e) = 500 \<and>
   headers (errorResponse P rs e) ''Content-Type'' = Some ''application/json'' \<and>
   (\<forall>str. e = JStr str \<longrightarrow> sent (errorResponse P rs e) = Some str) \<and>
   ((\<forall>str. e \<noteq> JStr str) \<longrightarrow> sent (errorResponse P rs e) = Some (JSON_stringify P e))"
  by (cases v; cases e)
     (simp_all add: successResponse_fields errorResponse_fields serialized_def)

theorem response_encoding_witness:
  "sent (successResponse samplePlatform freshResponse (JStr ''ok'')) = Some ''ok'' \<and>
   sent (successResponse samplePlatform freshResponse (JObj defaultCpuData)) = Some ''{}'' \<and>
   sent (errorResponse samplePlatform freshResponse (JStr ''down'')) = Some ''down'' \<and>
   sent (errorResponse samplePlatform freshResponse (JObj [])) = Some ''{}'' \<and>
   statusCode (errorResponse samplePlatform freshResponse (JObj [])) = 500"
proof -
  note a = response_encoding [of samplePlatform freshResponse "JStr ''ok''" "JStr ''down''"]
  note b = response_encoding [of samplePlatform freshResponse "JObj defaultCpuData" "JObj []"]
  have s: "JSON_stringify samplePlatform x = ''{}''" for x
    by (simp add: samplePlatform_def)
  from a have 1: "sent (successResponse samplePlatform freshResponse (JStr ''ok'')) = Some ''ok''"
    and 3: "sent (errorResponse samplePlatform freshResponse (JStr ''down'')) = Some ''down''"
    by simp_all
  from b have 2: "sent (successResponse samplePlatform freshResponse (JObj defaultCpuData)) = Some ''{}''"
    and 4: "sent (errorResponse samplePlatform freshResponse (JObj [])) = Some ''{}''"
    and 5: "statusCode (errorResponse samplePlatform freshResponse (JObj [])) = 500"
    by (simp_all add: s)
  from 1 2 3 4 5 show ?thesis by blast
qed

section \<open>Cached reads\<close>











section \<open>First-sample suppression\<close>

lemma run_append:
  "run P (es @ fs) s = (case run P es s of None \<Rightarrow> None | Some s' \<Rightarrow> run P fs s')"
  by (induction es arbitrary: s) (auto split: option.splits)

lemma run_snoc:
  "run P (es @ [e]) s = (case run P es s of None \<Rightarrow> None | Some s' \<Rightarrow> fire P e s')"
  by (simp add: run_append split: option.splits)

lemma cpuSuccesses_append: "cpuSuccesses (es @ fs) = cpuSuccesses es @ cpuSuccesses fs"
  by (induction es rule: cpuSuccesses.induct) simp_all

lemma netSuccesses_append: "netSuccesses (es @ fs) = netSuccesses es @ netSuccesses fs"
  by (induction es rule: netSuccesses.induct) simp_all

lemma cpuCell_init: "cpuCell [] (constructWith path ival)"
  by (simp add: cpuCell_def construct_fields)

lemma netCell_init: "netCell [] (constructWith path ival)"
  by (simp add: netCell_def construct_fields)

lemma cpuCell_step:
  assumes "cpuCell oks s" and "fire P e s = Some s'"
  shows "cpuCell (oks @ cpuSuccesses [e]) s'"
proof (cases e)
  case (CpuSeedResolved v)
  with assms show ?thesis
    by (auto simp: cpuCell_def cpuSeedThen_def jsIncrement_0 min_one_MAX_COUNT split: if_splits)
next
  case (CpuSeedRejected err)
  with assms show ?thesis
    by (auto simp: cpuCell_def cpuSeedCatch_def split: if_splits)
next
  case CpuTimer
  with assms show ?thesis by (auto simp: cpuCell_def split: if_splits)
next
  case (CpuSampleResolved stats now)
  from assms(1) have c: "cpuIntervals (self s) = min (length oks) MAX_COUNT"
    by (simp add: cpuCell_def)
  from assms(2) CpuSampleResolved
  have s': "s' = s\<lparr>self := cpuSampleThen stats now (self s), cpuInFlight := cpuInFlight s - 1\<rparr>"
    and fl: "0 < cpuInFlight s"
    by (auto split: if_splits)
  show ?thesis
  proof (cases "oks = []")
    case True
    with assms(1) counted [OF c] fl show ?thesis
      by (auto simp: cpuCell_def cpuSampleThen_def Let_def s' CpuSampleResolved)
  next
    case False
    then have "\<not> Suc (length oks) \<le> 1" by (cases oks) simp_all
    with False assms(1) counted [OF c] fl show ?thesis
      by (auto simp: cpuCell_def cpuSampleThen_def stamped_def Let_def s' CpuSampleResolved)
  qed
next
  case (CpuSampleRejected err)
  with assms show ?thesis
    by (auto simp: cpuCell_def cpuSampleCatch_def split: if_splits)
next
  case (NetIfaceResolved nic)
  with assms show ?thesis by (auto simp: cpuCell_def split: if_splits)
next
  case (NetIfaceRejected err)
  with assms show ?thesis by (auto simp: cpuCell_def netIfaceCatch_def split: if_splits)
next
  case NetRetryTimer
  with assms show ?thesis
    by (auto simp: cpuCell_def initNetworkMonitoring_def split: netChain.splits)
next
  case (NetSeedResolved v)
  with assms show ?thesis
    by (auto simp: cpuCell_def netSeedThen_def split: netChain.splits)
next
  case (NetSeedRejected err)
  with assms show ?thesis
    by (auto simp: cpuCell_def netSeedCatch_def split: netChain.splits)
next
  case NetTimer
  with assms show ?thesis by (auto simp: cpuCell_def split: netChain.splits)
next
  case (NetSampleResolved stats now)
  with assms show ?thesis
    by (auto simp: cpuCell_def netSampleThen_def Let_def split: if_splits)
next
  case (NetSampleRejected err)
  with assms show ?thesis by (auto simp: cpuCell_def split: if_splits)
next
  case (Request rq rs)
  with assms fire_Request [of P rq rs s s'] show ?thesis by (auto simp: cpuCell_def)
qed

lemma netCell_step:
  assumes "netCell oks s" and "fire P e s = Some s'"
  shows "netCell (oks @ netSuccesses [e]) s'"
proof (cases e)
  case (CpuSeedResolved v)
  with assms show ?thesis
    by (auto simp: netCell_def cpuSeedThen_def split: if_splits)
next
  case (CpuSeedRejected err)
  with assms show ?thesis
    by (auto simp: netCell_def cpuSeedCatch_def split: if_splits)
next
  case CpuTimer
  with assms show ?thesis by (auto simp: netCell_def split: if_splits)
next
  case (CpuSampleResolved stats now)
  with assms show ?thesis
    by (auto simp: netCell_def cpuSampleThen_def Let_def split: if_splits)
next
  case (CpuSampleRejected err)
  with assms show ?thesis
    by (auto simp: netCell_def cpuSampleCatch_def split: if_splits)
next
  case (NetIfaceResolved nic)
  with assms show ?thesis by (auto simp: netCell_def split: if_splits)
next
  case (NetIfaceRejected err)
  with assms show ?thesis by (auto simp: netCell_def netIfaceCatch_def split: if_splits)
next
  case NetRetryTimer
  with assms show ?thesis
    by (auto simp: netCell_def initNetworkMonitoring_def split: netChain.splits)
next
  case (NetSeedResolved v)
  with assms show ?thesis
    by (auto simp: netCell_def netSeedThen_def jsIncrement_0 min_one_MAX_COUNT split: netChain.splits)
next
  case (NetSeedRejected err)
  with assms show ?thesis
    by (auto simp: netCell_def netSeedCatch_def split: netChain.splits)
next
  case NetTimer
  with assms show ?thesis by (auto simp: netCell_def split: netChain.splits)
next
  case (NetSampleResolved stats now)
  from assms(1) have c: "networkIntervals (self s) = min (length oks) MAX_COUNT"
    by (simp add: netCell_def)
  from assms(2) NetSampleResolved
  have s': "s' = s\<lparr>self := netSampleThen stats now (self s), netInFlight := netInFlight s - 1\<rparr>"
    and fl: "0 < netInFlight s"
    by (auto split: if_splits)
  show ?thesis
  proof (cases "oks = []")
    case True
    with assms(1) counted [OF c] fl show ?thesis
      by (auto simp: netCell_def netSampleThen_def Let_def s' NetSampleResolved)
  next
    case False
    then have "\<not> Suc (length oks) \<le> 1" by (cases oks) simp_all
    with False assms(1) counted [OF c] fl show ?thesis
      by (auto simp: netCell_def netSampleThen_def stamped_def Let_def s' NetSampleResolved)
  qed
next
  case (NetSampleRejected err)
  with assms show ?thesis by (auto simp: netCell_def split: if_splits)
next
  case (Request rq rs)
  with assms fire_Request [of P rq rs s s'] show ?thesis by (auto simp: netCell_def)
qed

lemma cells_run:
  assumes "run P evs (constructWith path ival) = Some s"
  shows "cpuCell (cpuSuccesses evs) s \<and> netCell (netSuccesses evs) s"
  using assms
proof (induction evs arbitrary: s rule: rev_induct)
  case Nil
  then show ?case using cpuCell_init netCell_init by auto
next
  case (snoc e es)
  from snoc.prems obtain t where t: "run P es (constructWith path ival) = Some t"
    and f: "fire P e t = Some s"
    by (auto simp: run_snoc split: option.splits)
  from snoc.IH [OF t] have "cpuCell (cpuSuccesses es) t" and "netCell (netSuccesses es) t"
    by simp_all
  with f show ?case
    by (simp add: cpuSuccesses_append netSuccesses_append cpuCell_step netCell_step)
qed

text \<open>
  C1. First-sample suppression, for the CPU and the network cell of a constructed
  listener, after any sequence of events: when exactly one sample has completed
  successfully the cached value is still the default it had before sampling; when
  \<open>N \<ge> 2\<close> samples have completed successfully, the cached value is one of the 2nd to
  the \<open>N\<close>th of them (position 1 to \<open>N - 1\<close> counting from 0; it is the last one),
  stamped with a capture time, and so never the first one.
\<close>

theorem first_sample_suppression:
  assumes "new_MetricsListener a i = Inr s0" and "run P evs s0 = Some s"
  shows "(length (cpuSuccesses evs) = 1 \<longrightarrow> lastCpuData (self s) = lastCpuData (self s0))
    \<and> (2 \<le> length (cpuSuccesses evs) \<longrightarrow>
         (\<exists>k now. 1 \<le> k \<and> k < length (cpuSuccesses evs) \<and>
            lastCpuData (self s) = stamped now (cpuSuccesses evs ! k)))
    \<and> (length (netSuccesses evs) = 1 \<longrightarrow>
         lastNetworkData (self s) = lastNetworkData (self s0))
    \<and> (2 \<le> length (netSuccesses evs) \<longrightarrow>
         (\<exists>k now. 1 \<le> k \<and> k < length (netSuccesses evs) \<and>
            lastNetworkData (self s) = stamped now (netSuccesses evs ! k)))"
proof -
  from assms(1) obtain path where s0: "s0 = constructWith path (constructorInterval i)"
    using new_MetricsListener_Inr by blast
  from cells_run [of P evs path "constructorInterval i" s] assms(2) s0
  have c: "cpuCell (cpuSuccesses evs) s" and n: "netCell (netSuccesses evs) s"
    by simp_all
  have pick: "\<exists>k. 1 \<le> k \<and> k < length xs \<and> xs ! k = last xs" if "2 \<le> length xs"
    for xs :: "obj list"
  proof -
    from that have "xs \<noteq> []" by auto
    then have "xs ! (length xs - 1) = last xs" by (simp add: last_conv_nth)
    with that show ?thesis by (intro exI [of _ "length xs - 1"]) auto
  qed
  have c1: "length (cpuSuccesses evs) = 1 \<longrightarrow> lastCpuData (self s) = lastCpuData (self s0)"
    using c by (simp add: cpuCell_def s0 construct_fields)
  have c2: "2 \<le> length (cpuSuccesses evs) \<longrightarrow>
         (\<exists>k now. 1 \<le> k \<and> k < length (cpuSuccesses evs) \<and>
            lastCpuData (self s) = stamped now (cpuSuccesses evs ! k))"
  proof
    assume l: "2 \<le> length (cpuSuccesses evs)"
    with c obtain now where "lastCpuData (self s) = stamped now (last (cpuSuccesses evs))"
      by (auto simp: cpuCell_def)
    with pick [OF l] show "\<exists>k now. 1 \<le> k \<and> k < length (cpuSuccesses evs) \<and>
            lastCpuData (self s) = stamped now (cpuSuccesses evs ! k)"
      by metis
  qed
  have n1: "length (netSuccesses evs) = 1 \<longrightarrow>
         lastNetworkData (self s) = lastNetworkData (self s0)"
    using n by (simp add: netCell_def s0 construct_fields)
  have n2: "2 \<le> length (netSuccesses evs) \<longrightarrow>
         (\<exists>k now. 1 \<le> k \<and> k < length (netSuccesses evs) \<and>
            lastNetworkData (self s) = stamped now (netSuccesses evs ! k))"
  proof
    assume l: "2 \<le> length (netSuccesses evs)"
    with n obtain now where "lastNetworkData (self s) = stamped now (last (netSuccesses evs))"
      by (auto simp: netCell_def)
    with pick [OF l] show "\<exists>k now. 1 \<le> k \<and> k < length (netSuccesses evs) \<and>
            lastNetworkData (self s) = stamped now (netSuccesses evs ! k)"
      by metis
  qed
  from c1 c2 n1 n2 show ?thesis by blast
qed

theorem first_sample_suppression_witness:
  "\<exists>s. run samplePlatform
          [CpuSeedResolved [], CpuTimer, CpuSampleResolved [(''avgload'', JNum 2)] 17,
           NetIfaceResolved (JStr ''eth0''), NetSeedRejected (JStr ''down''), NetTimer,
           NetSampleResolved [(''rx'', JNum 9)] 18]
          (constructWith ''/metrics'' 1000) = Some s \<and>
        (\<exists>k now. 1 \<le> k \<and> k < 2 \<and>
           lastCpuData (self s) = stamped now ([[], [(''avgload'', JNum 2)]] ! k)) \<and>
        lastNetworkData (self s) = defaultNetworkData"
proof -
  let ?evs = "[CpuSeedResolved [], CpuTimer, CpuSampleResolved [(''avgload'', JNum 2)] 17,
           NetIfaceResolved (JStr ''eth0''), NetSeedRejected (JStr ''down''), NetTimer,
           NetSampleResolved [(''rx'', JNum 9)] 18]"
  let ?s0 = "constructWith ''/metrics'' 1000"
  have "\<exists>s. run samplePlatform ?evs ?s0 = Some s"
    by (simp add: construct_fields)
  then obtain s where r: "run samplePlatform ?evs ?s0 = Some s" ..
  have c: "cpuSuccesses ?evs = [[], [(''avgload'', JNum 2)]]"
    and n: "netSuccesses ?evs = [[(''rx'', JNum 9)]]"
    by simp_all
  from first_sample_suppression [OF new_default r]
  have "(\<exists>k now. 1 \<le> k \<and> k < 2 \<and>
           lastCpuData (self s) = stamped now ([[], [(''avgload'', JNum 2)]] ! k))"
    and "lastNetworkData (self s) = defaultNetworkData"
    unfolding c n by (auto simp: construct_fields numeral_2_eq_2)
  with r show ?thesis by blast
qed

section \<open>Default values\<close>

lemma fire_keeps_cpu:
  assumes "fire P e s = Some s'" and "\<not> adoptsCpu e s"
  shows "lastCpuData (self s') = lastCpuData (self s)"
proof (cases e)
  case (Request rq rs)
  with assms(1) fire_Request [of P rq rs s s'] show ?thesis by auto
qed (use assms in \<open>auto simp: cpuSeedThen_def cpuSeedCatch_def cpuSampleThen_def
        cpuSampleCatch_def netIfaceCatch_def initNetworkMonitoring_def netSeedThen_def
        netSeedCatch_def netSampleThen_def Let_def
      split: if_splits netChain.splits\<close>)

lemma fire_keeps_net:
  assumes "fire P e s = Some s'" and "\<not> adoptsNet e s"
  shows "lastNetworkData (self s') = lastNetworkData (self s)"
proof (cases e)
  case (Request rq rs)
  with assms(1) fire_Request [of P rq rs s s'] show ?thesis by auto
qed (use assms in \<open>auto simp: cpuSeedThen_def cpuSeedCatch_def cpuSampleThen_def
        cpuSampleCatch_def netIfaceCatch_def initNetworkMonitoring_def netSeedThen_def
        netSeedCatch_def netSampleThen_def Let_def
      split: if_splits netChain.splits\<close>)

lemma run_keeps_cpu:
  "run P evs s = Some s' \<Longrightarrow> \<not> cpuAdopted P evs s \<Longrightarrow>
   lastCpuData (self s') = lastCpuData (self s)"
proof (induction evs arbitrary: s)
  case Nil
  then show ?case by simp
next
  case (Cons e es)
  from Cons.prems(1) obtain t where f: "fire P e s = Some t" and r: "run P es t = Some s'"
    by (auto split: option.splits)
  from Cons.prems(2) f have na: "\<not> adoptsCpu e s" and nr: "\<not> cpuAdopted P es t"
    by simp_all
  from Cons.IH [OF r nr] fire_keeps_cpu [OF f na] show ?case by simp
qed

lemma run_keeps_net:
  "run P evs s = Some s' \<Longrightarrow> \<not> netAdopted P evs s \<Longrightarrow>
   lastNetworkData (self s') = lastNetworkData (self s)"
proof (induction evs arbitrary: s)
  case Nil
  then show ?case by simp
next
  case (Cons e es)
  from Cons.prems(1) obtain t where f: "fire P e s = Some t" and r: "run P es t = Some s'"
    by (auto split: option.splits)
  from Cons.prems(2) f have na: "\<not> adoptsNet e s" and nr: "\<not> netAdopted P es t"
    by simp_all
  from Cons.IH [OF r nr] fire_keeps_net [OF f na] show ?case by simp
qed

text \<open>
  C8. Default values: a constructed listener's CPU cell holds \<open>currentload_idle = 100\<close>,
  every other load field 0 and an empty core list, and its network cell holds the
  interface and the operational state \<open>unknown\<close>, zero \<open>rx\<close> and \<open>tx\<close>, and
  \<open>rx_sec = tx_sec = -1\<close>. Every sequence of events (promise completions, timers,
  requests) in which no CPU sample was adopted leaves the CPU cell at these values, and
  likewise for the network cell.
\<close>

theorem default_values:
  assumes "new_MetricsListener a i = Inr s0" and "run P evs s0 = Some s"
  shows "lastCpuData (self s0) = defaultCpuData \<and>
    lastNetworkData (self s0) = defaultNetworkData \<and>
    getProp defaultCpuData ''currentload_idle'' = JNum 100 \<and>
    (\<forall>k \<in> set [''avgload'', ''currentload'', ''currentload_user'', ''currentload_system'',
                 ''currentload_nice'', ''currentload_irq'', ''raw_currentload'',
                 ''raw_currentload_user'', ''raw_currentload_system'',
                 ''raw_currentload_nice'', ''raw_currentload_idle'', ''raw_currentload_irq''].
        getProp defaultCpuData k = JNum 0) \<and>
    getProp defaultCpuData ''cpus'' = JArr [] \<and>
    getProp defaultNetworkData ''iface'' = JStr ''unknown'' \<and>
    getProp defaultNetworkData ''operstate'' = JStr ''unknown'' \<and>
    getProp defaultNetworkData ''rx'' = JNum 0 \<and>
    getProp defaultNetworkData ''tx'' = JNum 0 \<and>
    getProp defaultNetworkData ''rx_sec'' = JNum (- 1) \<and>
    getProp defaultNetworkData ''tx_sec'' = JNum (- 1) \<and>
    (\<not> cpuAdopted P evs s0 \<longrightarrow> lastCpuData (self s) = defaultCpuData) \<and>
    (\<not> netAdopted P evs s0 \<longrightarrow> lastNetworkData (self s) = defaultNetworkData)"
proof -
  from assms(1) obtain path where s0: "s0 = constructWith path (constructorInterval i)"
    using new_MetricsListener_Inr by blast
  have i1: "lastCpuData (self s0) = defaultCpuData"
    and i2: "lastNetworkData (self s0) = defaultNetworkData"
    by (simp_all add: s0 construct_fields)
  have v1: "getProp defaultCpuData ''currentload_idle'' = JNum 100"
    and v3: "getProp defaultCpuData ''cpus'' = JArr []"
    by (simp_all add: defaultCpuData_def)
  have v2: "\<forall>k \<in> set [''avgload'', ''currentload'', ''currentload_user'', ''currentload_system'',
                 ''currentload_nice'', ''currentload_irq'', ''raw_currentload'',
                 ''raw_currentload_user'', ''raw_currentload_system'',
                 ''raw_currentload_nice'', ''raw_currentload_idle'', ''raw_currentload_irq''].
        getProp defaultCpuData k = JNum 0"
    by (simp add: defaultCpuData_def)
  have n1: "getProp defaultNetworkData ''iface'' = JStr ''unknown''"
    and n2: "getProp defaultNetworkData ''operstate'' = JStr ''unknown''"
    and n3: "getProp defaultNetworkData ''rx'' = JNum 0"
    and n4: "getProp defaultNetworkData ''tx'' = JNum 0"
    and n5: "getProp defaultNetworkData ''rx_sec'' = JNum (- 1)"
    and n6: "getProp defaultNetworkData ''tx_sec'' = JNum (- 1)"
    by (simp_all add: defaultNetworkData_def)
  have p1: "\<not> cpuAdopted P evs s0 \<longrightarrow> lastCpuData (self s) = defaultCpuData"
    using run_keeps_cpu [OF assms(2)] i1 by simp
  have p2: "\<not> netAdopted P evs s0 \<longrightarrow> lastNetworkData (self s) = defaultNetworkData"
    using run_keeps_net [OF assms(2)] i2 by simp
  from i1 i2 v1 v2 v3 n1 n2 n3 n4 n5 n6 p1 p2 show ?thesis by blast
qed

theorem default_values_witness:
  "\<exists>s. run samplePlatform
          [CpuSeedResolved [(''avgload'', JNum 3)], CpuTimer,
           Request (requestFor ''/metrics/cpu'') freshResponse,
           NetIfaceRejected (JStr ''down''), NetRetryTimer, CpuSampleRejected (JStr ''busy'')]
          (constructWith ''/metrics'' 1000) = Some s \<and>
        lastCpuData (self s) = defaultCpuData \<and>
        lastNetworkData (self s) = defaultNetworkData \<and>
        getProp (lastNetworkData (self s)) ''rx_sec'' = JNum (- 1)"
proof -
  let ?evs = "[CpuSeedResolved [(''avgload'', JNum 3)], CpuTimer,
           Request (requestFor ''/metrics/cpu'') freshResponse,
           NetIfaceRejected (JStr ''down''), NetRetryTimer, CpuSampleRejected (JStr ''busy'')]"
  let ?s0 = "constructWith ''/metrics'' 1000"
  have "\<exists>s. run samplePlatform ?evs ?s0 = Some s"
    by (simp add: construct_fields initNetworkMonitoring_def requestListener_def
          requestFor_def cpuSeedThen_def Let_def startsWith_def)
  then obtain s where r: "run samplePlatform ?evs ?s0 = Some s" ..
  have c: "\<not> cpuAdopted samplePlatform ?evs ?s0"
    and n: "\<not> netAdopted samplePlatform ?evs ?s0"
    by (simp_all add: construct_fields initNetworkMonitoring_def requestListener_def
          requestFor_def cpuSeedThen_def Let_def startsWith_def)
  from default_values [OF new_default r] c n
  have "lastCpuData (self s) = defaultCpuData"
    and "lastNetworkData (self s) = defaultNetworkData"
    and "getProp defaultNetworkData ''rx_sec'' = JNum (- 1)"
    by blast+
  with r show ?thesis by auto
qed

section \<open>Failures and the bootstrap retry\<close>

lemma retry_round:
  assumes "netChain s = NetResolving"
  shows "run P [NetIfaceRejected e, NetRetryTimer] s =
           Some (initNetworkMonitoring
                  (s\<lparr>self := netIfaceCatch e (self s), netChain := NetRetryWait RETRY_DELAY\<rparr>))"
  using assms by simp

lemma retry_rounds:
  "netChain s = NetResolving \<Longrightarrow>
   \<exists>s'. run P (concat (replicate n [NetIfaceRejected e, NetRetryTimer])) s = Some s' \<and>
        netChain s' = NetResolving \<and>
        lastNetworkError (self s') = (if n = 0 then lastNetworkError (self s) else e)"
proof (induction n arbitrary: s)
  case 0
  then show ?case by simp
next
  case (Suc n)
  let ?t = "initNetworkMonitoring
              (s\<lparr>self := netIfaceCatch e (self s), netChain := NetRetryWait RETRY_DELAY\<rparr>)"
  have c: "netChain ?t = NetResolving" and l: "lastNetworkError (self ?t) = e"
    by (simp_all add: initNetworkMonitoring_def netIfaceCatch_def)
  from Suc.IH [OF c] obtain s' where
    r: "run P (concat (replicate n [NetIfaceRejected e, NetRetryTimer])) ?t = Some s'"
    and c': "netChain s' = NetResolving"
    and l': "lastNetworkError (self s') = (if n = 0 then lastNetworkError (self ?t) else e)"
    by blast
  have "run P (concat (replicate (Suc n) [NetIfaceRejected e, NetRetryTimer])) s =
        run P (concat (replicate n [NetIfaceRejected e, NetRetryTimer])) ?t"
    using Suc.prems by simp
  with r c' l' l show ?case by simp
qed

text \<open>
  C9. Network bootstrap retry: when the default interface cannot be resolved, the
  failure is recorded as the network cell's last error and a timer of 1000 ms is set;
  when it fires, \<open>_initNetworkMonitoring\<close> runs again from its start, so the whole
  bootstrap (interface resolution, seed call, interval start) is attempted again. This
  holds for any number of failures in a row: there is no cap.
\<close>

theorem bootstrap_retry:
  assumes "netChain s = NetResolving"
  shows "fire P (NetIfaceRejected e) s =
           Some (s\<lparr>self := (self s)\<lparr>lastNetworkError := e\<rparr>, netChain := NetRetryWait 1000\<rparr>)
    \<and> fire P NetRetryTimer
          (s\<lparr>self := (self s)\<lparr>lastNetworkError := e\<rparr>, netChain := NetRetryWait 1000\<rparr>) =
        Some (initNetworkMonitoring
          (s\<lparr>self := (self s)\<lparr>lastNetworkError := e\<rparr>, netChain := NetRetryWait 1000\<rparr>))
    \<and> (\<forall>n. \<exists>s' s''.
          run P (concat (replicate (Suc n) [NetIfaceRejected e, NetRetryTimer])) s = Some s' \<and>
          netChain s' = NetResolving \<and> lastNetworkError (self s') = e \<and>
          run P [NetIfaceResolved nic, NetSeedResolved v] s' = Some s'' \<and>
          netChain s'' = NetPolling nic)"
proof -
  have a: "fire P (NetIfaceRejected e) s =
           Some (s\<lparr>self := (self s)\<lparr>lastNetworkError := e\<rparr>, netChain := NetRetryWait 1000\<rparr>)"
    using assms by (simp add: netIfaceCatch_def RETRY_DELAY_def)
  have b: "fire P NetRetryTimer
          (s\<lparr>self := (self s)\<lparr>lastNetworkError := e\<rparr>, netChain := NetRetryWait 1000\<rparr>) =
        Some (initNetworkMonitoring
          (s\<lparr>self := (self s)\<lparr>lastNetworkError := e\<rparr>, netChain := NetRetryWait 1000\<rparr>))"
    by simp
  have c: "\<exists>s' s''.
          run P (concat (replicate (Suc n) [NetIfaceRejected e, NetRetryTimer])) s = Some s' \<and>
          netChain s' = NetResolving \<and> lastNetworkError (self s') = e \<and>
          run P [NetIfaceResolved nic, NetSeedResolved v] s' = Some s'' \<and>
          netChain s'' = NetPolling nic" for n
  proof -
    from retry_rounds [OF assms, of P "Suc n" e] obtain s' where
      r: "run P (concat (replicate (Suc n) [NetIfaceRejected e, NetRetryTimer])) s = Some s'"
      and c': "netChain s' = NetResolving" and l': "lastNetworkError (self s') = e"
      by auto
    have "run P [NetIfaceResolved nic, NetSeedResolved v] s' =
          Some (s'\<lparr>netChain := NetPolling nic, self := netSeedThen (self s')\<rparr>)"
      using c' by simp
    with r c' l' show ?thesis by simp
  qed
  from a b c show ?thesis by blast
qed

theorem bootstrap_retry_witness:
  "netChain (constructWith ''/metrics'' 1000) = NetResolving \<and>
   fire samplePlatform (NetIfaceRejected (JStr ''no route''))
      (constructWith ''/metrics'' 1000) =
     Some ((constructWith ''/metrics'' 1000)
        \<lparr>self := (self (constructWith ''/metrics'' 1000))
                    \<lparr>lastNetworkError := JStr ''no route''\<rparr>,
         netChain := NetRetryWait 1000\<rparr>) \<and>
   (\<exists>s' s''.
      run samplePlatform
        [NetIfaceRejected (JStr ''no route''), NetRetryTimer,
         NetIfaceRejected (JStr ''no route''), NetRetryTimer,
         NetIfaceRejected (JStr ''no route''), NetRetryTimer]
        (constructWith ''/metrics'' 1000) = Some s' \<and>
      netChain s' = NetResolving \<and> lastNetworkError (self s') = JStr ''no route'' \<and>
      run samplePlatform [NetIfaceResolved (JStr ''eth0''), NetSeedResolved []] s' = Some s'' \<and>
      netChain s'' = NetPolling (JStr ''eth0''))"
proof -
  have h: "netChain (constructWith ''/metrics'' 1000) = NetResolving"
    by (simp add: construct_fields)
  have three: "concat (replicate (Suc 2) [NetIfaceRejected (JStr ''no route''), NetRetryTimer]) =
        [NetIfaceRejected (JStr ''no route''), NetRetryTimer,
         NetIfaceRejected (JStr ''no route''), NetRetryTimer,
         NetIfaceRejected (JStr ''no route''), NetRetryTimer]"
    by (simp add: numeral_2_eq_2)
  note w = bootstrap_retry [OF h, of samplePlatform "JStr ''no route''" "JStr ''eth0''" "[]"]
  from w have a: "fire samplePlatform (NetIfaceRejected (JStr ''no route''))
      (constructWith ''/metrics'' 1000) =
     Some ((constructWith ''/metrics'' 1000)
        \<lparr>self := (self (constructWith ''/metrics'' 1000))
                    \<lparr>lastNetworkError := JStr ''no route''\<rparr>,
         netChain := NetRetryWait 1000\<rparr>)"
    by blast
  from w have "\<exists>s' s''.
      run samplePlatform
        (concat (replicate (Suc 2) [NetIfaceRejected (JStr ''no route''), NetRetryTimer]))
        (constructWith ''/metrics'' 1000) = Some s' \<and>
      netChain s' = NetResolving \<and> lastNetworkError (self s') = JStr ''no route'' \<and>
      run samplePlatform [NetIfaceResolved (JStr ''eth0''), NetSeedResolved []] s' = Some s'' \<and>
      netChain s'' = NetPolling (JStr ''eth0'')"
    by blast
  then have b: "\<exists>s' s''.
      run samplePlatform
        [NetIfaceRejected (JStr ''no route''), NetRetryTimer,
         NetIfaceRejected (JStr ''no route''), NetRetryTimer,
         NetIfaceRejected (JStr ''no route''), NetRetryTimer]
        (constructWith ''/metrics'' 1000) = Some s' \<and>
      netChain s' = NetResolving \<and> lastNetworkError (self s') = JStr ''no route'' \<and>
      run samplePlatform [NetIfaceResolved (JStr ''eth0''), NetSeedResolved []] s' = Some s'' \<and>
      netChain s'' = NetPolling (JStr ''eth0'')"
    unfolding three .
  from h a b show ?thesis by blast
qed

text \<open>
  C2. A failing sample is to be recorded in its cell's last error. The CPU cell does
  so. The network cell does not for a call issued by its interval: with the interface
  resolved, the seed call done and one interval call in flight, that call rejects and
  the network cell's last error is still \<open>null\<close>, where the same trace on the CPU side
  records the rejection.
\<close>

theorem network_sample_failure_not_recorded:
  "map_option (\<lambda>s. lastNetworkError (self s))
     (run samplePlatform
        [NetIfaceResolved (JStr ''eth0''), NetSeedResolved [], NetTimer,
         NetSampleRejected (JStr ''ETIMEDOUT'')]
        (constructWith ''/metrics'' 1000)) = Some JNull \<and>
   map_option (\<lambda>s. lastCpuError (self s))
     (run samplePlatform
        [CpuSeedResolved [], CpuTimer, CpuSampleRejected (JStr ''ETIMEDOUT'')]
        (constructWith ''/metrics'' 1000)) = Some (JStr ''ETIMEDOUT'')"
  by (simp add: construct_fields netSeedThen_def cpuSeedThen_def cpuSampleCatch_def
        jsIncrement_0)

lemma cpu_sample_failure_recorded:
  "fire P (CpuSampleRejected e) s = Some s' \<Longrightarrow>
   lastCpuError (self s') = e \<and> lastCpuData (self s') = lastCpuData (self s)"
  by (auto simp: cpuSampleCatch_def split: if_splits)

lemma seed_failure_recorded:
  "fire P (CpuSeedRejected e) s = Some s' \<Longrightarrow>
   lastCpuError (self s') = e \<and> lastCpuData (self s') = lastCpuData (self s)"
  "fire P (NetSeedRejected e) s = Some s' \<Longrightarrow>
   lastNetworkError (self s') = e \<and> lastNetworkData (self s') = lastNetworkData (self s)"
  by (auto simp: cpuSeedCatch_def netSeedCatch_def split: if_splits netChain.splits)

lemma network_sample_failure_dropped:
  "fire P (NetSampleRejected e) s = Some s' \<Longrightarrow> self s' = self s"
  by (auto split: if_splits)

text \<open>The counters of a constructed listener stay within the range in which
  \<open>jsIncrement\<close> is the \<^verbatim>\<open>++\<close> of a JavaScript number.\<close>

lemma counters_step:
  assumes "fire P e s = Some s'"
    and "requestCount (self s) \<le> MAX_COUNT \<and> cpuIntervals (self s) \<le> MAX_COUNT \<and>
         networkIntervals (self s) \<le> MAX_COUNT"
  shows "requestCount (self s') \<le> MAX_COUNT \<and> cpuIntervals (self s') \<le> MAX_COUNT \<and>
         networkIntervals (self s') \<le> MAX_COUNT"
proof (cases e)
  case (Request rq rs)
  with assms fire_Request [of P rq rs s s'] show ?thesis
    by (auto simp: jsIncrement_le)
qed (use assms in \<open>auto simp: cpuSeedThen_def cpuSeedCatch_def cpuSampleThen_def
        cpuSampleCatch_def netIfaceCatch_def initNetworkMonitoring_def netSeedThen_def
        netSeedCatch_def netSampleThen_def Let_def jsIncrement_le
      split: if_splits netChain.splits\<close>)

lemma counters_in_range:
  assumes "run P evs (constructWith path ival) = Some s"
  shows "requestCount (self s) \<le> MAX_COUNT \<and> cpuIntervals (self s) \<le> MAX_COUNT \<and>
         networkIntervals (self s) \<le> MAX_COUNT"
  using assms
proof (induction evs arbitrary: s rule: rev_induct)
  case Nil
  then show ?case by (auto simp: construct_fields)
next
  case (snoc e es)
  from snoc.prems obtain t where t: "run P es (constructWith path ival) = Some t"
    and f: "fire P e t = Some s"
    by (auto simp: run_snoc split: option.splits)
  from counters_step [OF f snoc.IH [OF t]] show ?case .
qed


end
